theory Spec2Isabelle
  imports Main "HOL-Library.Multiset"
begin

section \<open>The password generator of Task-3-Password-Generator/password_generator.py\<close>

text \<open>
  The strings the generator builds are modelled as \<^typ>\<open>string\<close>: a \<^typ>\<open>char\<close> stands for
  the code point of the same number, and every character the generator produces is ASCII.
  The argument of \<^verbatim>\<open>check_strength\<close> is any Python string, and is modelled as a list of
  Unicode code points.
\<close>

subsection \<open>The constants of module string\<close>

definition ascii_lowercase :: string where
  "ascii_lowercase = ''abcdefghijklmnopqrstuvwxyz''"

definition ascii_uppercase :: string where
  "ascii_uppercase = ''ABCDEFGHIJKLMNOPQRSTUVWXYZ''"

definition string_digits :: string where
  "string_digits = ''0123456789''"

text \<open>
  \<^verbatim>\<open>string.punctuation\<close>: the 32 ASCII characters 0x21-0x2F, 0x3A-0x40, 0x5B-0x60 and
  0x7B-0x7E, in that order.
\<close>

definition string_punctuation :: string where
  "string_punctuation =
     [CHR 0x21, CHR 0x22, CHR 0x23, CHR 0x24, CHR 0x25, CHR 0x26, CHR 0x27, CHR 0x28,
      CHR 0x29, CHR 0x2A, CHR 0x2B, CHR 0x2C, CHR 0x2D, CHR 0x2E, CHR 0x2F,
      CHR 0x3A, CHR 0x3B, CHR 0x3C, CHR 0x3D, CHR 0x3E, CHR 0x3F, CHR 0x40,
      CHR 0x5B, CHR 0x5C, CHR 0x5D, CHR 0x5E, CHR 0x5F, CHR 0x60,
      CHR 0x7B, CHR 0x7C, CHR 0x7D, CHR 0x7E]"

subsection \<open>The program state\<close>

text \<open>
  The fields of the \<^verbatim>\<open>PasswordGenerator\<close> instance (\<^verbatim>\<open>self\<close>), together with the
  two random sources the methods draw from. A random source is the sequence of raw values
  it is going to deliver and the number of values consumed so far; a draw below \<open>n\<close> takes
  the next raw value modulo \<open>n\<close>, so that the sequence fixes the outcome of every draw and
  every outcome below \<open>n\<close> is the outcome for some sequence:
  \<^item> \<open>secure\<close>, \<open>secure_pos\<close>: the operating system's entropy source behind module
    \<^verbatim>\<open>secrets\<close>;
  \<^item> \<open>twister\<close>, \<open>twister_pos\<close>: the Mersenne Twister behind the module-level functions
    of \<^verbatim>\<open>random\<close>, which is not cryptographically secure.
\<close>

record state =
  lowercase :: string
  uppercase :: string
  digits :: string
  symbols :: string
  history :: "string list"
  secure :: "nat \<Rightarrow> nat"
  secure_pos :: nat
  twister :: "nat \<Rightarrow> nat"
  twister_pos :: nat

text \<open>\<^verbatim>\<open>__init__\<close>, given the two random sources of the process.\<close>

definition init :: "(nat \<Rightarrow> nat) \<Rightarrow> (nat \<Rightarrow> nat) \<Rightarrow> state" where
  "init sec tw =
     \<lparr>lowercase = ascii_lowercase, uppercase = ascii_uppercase, digits = string_digits,
      symbols = string_punctuation, history = [],
      secure = sec, secure_pos = 0, twister = tw, twister_pos = 0\<rparr>"

text \<open>
  The four alphabets are assigned in \<^verbatim>\<open>__init__\<close> and never again: they have these values
  in every state the program reaches.
\<close>

definition fixed_alphabets :: "state \<Rightarrow> bool" where
  "fixed_alphabets s \<longleftrightarrow>
     lowercase s = ascii_lowercase \<and> uppercase s = ascii_uppercase \<and>
     digits s = string_digits \<and> symbols s = string_punctuation"

subsection \<open>Errors and results\<close>

text \<open>
  \<^verbatim>\<open>generate_password\<close> reports its two failures by returning a message instead of a
  password: \<open>InvalidLengthError\<close> and \<open>NoClassSelectedError\<close>, named as the specification
  names them, and for these two \<open>error_message\<close> is the string returned. \<open>IndexError\<close> and
  \<open>ValueError\<close> are the exceptions \<^verbatim>\<open>secrets.choice\<close> and \<^verbatim>\<open>secrets.randbelow\<close> raise.
  \<open>WordCountOutOfRangeError\<close> is the rejection printed by option 2 of the menu.
\<close>

datatype error =
    InvalidLengthError
  | NoClassSelectedError
  | WordCountOutOfRangeError
  | IndexError
  | ValueError

definition error_message :: "error \<Rightarrow> string" where
  "error_message e =
     (case e of
        InvalidLengthError \<Rightarrow> ''Error: Password length must be at least 4 characters''
      | NoClassSelectedError \<Rightarrow> ''Error: At least one character type must be selected''
      | WordCountOutOfRangeError \<Rightarrow> ''Word count must be between 3 and 6''
      | IndexError \<Rightarrow> ''Cannot choose from an empty sequence''
      | ValueError \<Rightarrow> ''Upper bound must be positive.'')"

text \<open>A call ends with a value or an error, and in both cases with a state.\<close>

type_synonym 'a result = "(error + 'a) \<times> state"

subsection \<open>The random sources\<close>

text \<open>
  \<^verbatim>\<open>secrets.randbelow(n)\<close>: a value below \<open>n\<close> from the secure source;
  \<^verbatim>\<open>ValueError\<close> when \<open>n\<close> is not positive.
\<close>

definition secrets_randbelow :: "int \<Rightarrow> state \<Rightarrow> nat result" where
  "secrets_randbelow n s =
     (if n \<le> 0 then (Inl ValueError, s)
      else (Inr (secure s (secure_pos s) mod nat n), s\<lparr>secure_pos := Suc (secure_pos s)\<rparr>))"

text \<open>
  \<^verbatim>\<open>secrets.choice(seq)\<close>: \<^verbatim>\<open>IndexError\<close> on an empty sequence, else the element at an
  index drawn below \<^verbatim>\<open>len(seq)\<close> from the secure source.
\<close>

definition secrets_choice :: "'a list \<Rightarrow> state \<Rightarrow> 'a result" where
  "secrets_choice seq s =
     (if seq = [] then (Inl IndexError, s)
      else (Inr (seq ! (secure s (secure_pos s) mod length seq)),
            s\<lparr>secure_pos := Suc (secure_pos s)\<rparr>))"

text \<open>
  \<^verbatim>\<open>[secrets.choice(seq) for _ in range(n)]\<close>: an exception in one draw ends the
  comprehension.
\<close>

fun choices :: "nat \<Rightarrow> 'a list \<Rightarrow> state \<Rightarrow> 'a list result" where
  "choices 0 seq s = (Inr [], s)"
| "choices (Suc n) seq s =
     (case secrets_choice seq s of
        (Inl e, s1) \<Rightarrow> (Inl e, s1)
      | (Inr c, s1) \<Rightarrow>
          (case choices n seq s1 of
             (Inl e, s2) \<Rightarrow> (Inl e, s2)
           | (Inr cs, s2) \<Rightarrow> (Inr (c # cs), s2)))"

text \<open>
  \<^verbatim>\<open>random._randbelow(n)\<close> for positive \<open>n\<close>, on the Mersenne Twister.
\<close>

definition random_randbelow :: "nat \<Rightarrow> state \<Rightarrow> nat \<times> state" where
  "random_randbelow n s =
     (twister s (twister_pos s) mod n, s\<lparr>twister_pos := Suc (twister_pos s)\<rparr>)"

text \<open>
  \<^verbatim>\<open>random.shuffle(x)\<close> of the standard library:
  \<^verbatim>\<open>for i in reversed(range(1, len(x))): j = randbelow(i + 1); x[i], x[j] = x[j], x[i]\<close>.
  \<open>shuffle_from i\<close> is the loop from index \<open>i\<close> down to 1.
\<close>

fun shuffle_from :: "nat \<Rightarrow> 'a list \<Rightarrow> state \<Rightarrow> 'a list \<times> state" where
  "shuffle_from 0 x s = (x, s)"
| "shuffle_from (Suc i) x s =
     (case random_randbelow (Suc i + 1) s of
        (j, s1) \<Rightarrow> shuffle_from i (x[Suc i := x ! j, j := x ! Suc i]) s1)"

definition random_shuffle :: "'a list \<Rightarrow> state \<Rightarrow> 'a list \<times> state" where
  "random_shuffle x s = shuffle_from (length x - 1) x s"

subsection \<open>generate_password\<close>

text \<open>\<^verbatim>\<open>s.replace(c, '')\<close> for a single character \<open>c\<close>: every occurrence is removed.\<close>

definition replace_with_empty :: "char \<Rightarrow> string \<Rightarrow> string" where
  "replace_with_empty c s = filter (\<lambda>x. x \<noteq> c) s"

text \<open>The local \<^verbatim>\<open>chars\<close> of the lowercase, uppercase and digit blocks (lines 35-37, 42-44, 49-51).\<close>

definition lower_chars :: "bool \<Rightarrow> state \<Rightarrow> string" where
  "lower_chars exclude_ambiguous s =
     (if exclude_ambiguous
      then replace_with_empty CHR ''o'' (replace_with_empty CHR ''l'' (lowercase s))
      else lowercase s)"

definition upper_chars :: "bool \<Rightarrow> state \<Rightarrow> string" where
  "upper_chars exclude_ambiguous s =
     (if exclude_ambiguous
      then replace_with_empty CHR ''O'' (replace_with_empty CHR ''I'' (uppercase s))
      else uppercase s)"

definition digit_chars :: "bool \<Rightarrow> state \<Rightarrow> string" where
  "digit_chars exclude_ambiguous s =
     (if exclude_ambiguous
      then replace_with_empty CHR ''1'' (replace_with_empty CHR ''0'' (digits s))
      else digits s)"

text \<open>
  What each of the four blocks does with its alphabet:
  \<^verbatim>\<open>char_pool += chars; required_chars.append(secrets.choice(chars))\<close>.
  An exception of the draw leaves the method, so the locals are lost.
\<close>

definition add_class :: "string \<Rightarrow> string \<times> char list \<Rightarrow> state \<Rightarrow> (string \<times> char list) result" where
  "add_class chars p s =
     (case p of (char_pool, required_chars) \<Rightarrow>
        (case secrets_choice chars s of
           (Inl e, s1) \<Rightarrow> (Inl e, s1)
         | (Inr c, s1) \<Rightarrow> (Inr (char_pool @ chars, required_chars @ [c]), s1)))"

definition when_class :: "bool \<Rightarrow> string \<Rightarrow> string \<times> char list \<Rightarrow> state \<Rightarrow> (string \<times> char list) result" where
  "when_class use chars p s = (if use then add_class chars p s else (Inr p, s))"

text \<open>
  Lines 31-57: \<^verbatim>\<open>char_pool\<close> and \<^verbatim>\<open>required_chars\<close> after the four blocks, which run in
  the order lowercase, uppercase, digits, symbols. The symbols are never filtered.
\<close>

definition class_blocks :: "bool \<Rightarrow> bool \<Rightarrow> bool \<Rightarrow> bool \<Rightarrow> bool \<Rightarrow> state \<Rightarrow> (string \<times> char list) result" where
  "class_blocks use_upper use_lower use_digits use_symbols exclude_ambiguous s =
     (case when_class use_lower (lower_chars exclude_ambiguous s) ([], []) s of
        (Inl e, s1) \<Rightarrow> (Inl e, s1)
      | (Inr p1, s1) \<Rightarrow>
     (case when_class use_upper (upper_chars exclude_ambiguous s1) p1 s1 of
        (Inl e, s2) \<Rightarrow> (Inl e, s2)
      | (Inr p2, s2) \<Rightarrow>
     (case when_class use_digits (digit_chars exclude_ambiguous s2) p2 s2 of
        (Inl e, s3) \<Rightarrow> (Inl e, s3)
      | (Inr p3, s3) \<Rightarrow> when_class use_symbols (symbols s3) p3 s3)))"

text \<open>
  \<^verbatim>\<open>generate_password(length, use_upper, use_lower, use_digits, use_symbols,
  exclude_ambiguous)\<close>. The two error returns come back as \<open>Inl\<close>; the text the caller
  receives is \<open>error_message\<close>. \<^verbatim>\<open>range(remaining_length)\<close> is empty for a negative
  argument.
\<close>

definition generate_password :: "int \<Rightarrow> bool \<Rightarrow> bool \<Rightarrow> bool \<Rightarrow> bool \<Rightarrow> bool \<Rightarrow> state \<Rightarrow> string result" where
  "generate_password pw_length use_upper use_lower use_digits use_symbols exclude_ambiguous s =
     (if pw_length < 4 then (Inl InvalidLengthError, s)
      else
        (case class_blocks use_upper use_lower use_digits use_symbols exclude_ambiguous s of
           (Inl e, s1) \<Rightarrow> (Inl e, s1)
         | (Inr (char_pool, required_chars), s1) \<Rightarrow>
             if char_pool = [] then (Inl NoClassSelectedError, s1)
             else
               (let remaining_length = pw_length - int (length required_chars) in
                case choices (nat remaining_length) char_pool s1 of
                  (Inl e, s2) \<Rightarrow> (Inl e, s2)
                | (Inr filler, s2) \<Rightarrow>
                    (case random_shuffle (required_chars @ filler) s2 of
                       (password, s3) \<Rightarrow>
                         (Inr password, s3\<lparr>history := history s3 @ [password]\<rparr>)))))"

subsection \<open>The vocabulary of the specification\<close>

datatype char_class = Lowercase | Uppercase | Digit | Symbol

text \<open>The classes a call enables, from its four flags, in the order of the blocks.\<close>

definition enabled_classes :: "bool \<Rightarrow> bool \<Rightarrow> bool \<Rightarrow> bool \<Rightarrow> char_class list" where
  "enabled_classes use_upper use_lower use_digits use_symbols =
     (if use_lower then [Lowercase] else []) @ (if use_upper then [Uppercase] else []) @
     (if use_digits then [Digit] else []) @ (if use_symbols then [Symbol] else [])"

fun base_alphabet :: "char_class \<Rightarrow> string" where
  "base_alphabet Lowercase = ascii_lowercase"
| "base_alphabet Uppercase = ascii_uppercase"
| "base_alphabet Digit = string_digits"
| "base_alphabet Symbol = string_punctuation"

fun ambiguous :: "char_class \<Rightarrow> string" where
  "ambiguous Lowercase = ''lo''"
| "ambiguous Uppercase = ''IO''"
| "ambiguous Digit = ''01''"
| "ambiguous Symbol = []"

text \<open>The alphabet a block draws from, by class.\<close>

fun alphabet_for :: "char_class \<Rightarrow> bool \<Rightarrow> state \<Rightarrow> string" where
  "alphabet_for Lowercase exclude_ambiguous s = lower_chars exclude_ambiguous s"
| "alphabet_for Uppercase exclude_ambiguous s = upper_chars exclude_ambiguous s"
| "alphabet_for Digit exclude_ambiguous s = digit_chars exclude_ambiguous s"
| "alphabet_for Symbol exclude_ambiguous s = symbols s"

subsection \<open>generate_passphrase\<close>

definition words :: "string list" where
  "words =
     [''alpha'', ''bravo'', ''charlie'', ''delta'', ''echo'', ''foxtrot'', ''golf'',
      ''hotel'', ''india'', ''juliett'', ''kilo'', ''lima'', ''mike'', ''november'',
      ''oscar'', ''papa'', ''quebec'', ''romeo'', ''sierra'', ''tango'', ''uniform'',
      ''victor'', ''whiskey'', ''xray'', ''yankee'', ''zulu'', ''ocean'', ''mountain'',
      ''river'', ''forest'', ''desert'', ''island'', ''valley'', ''canyon'', ''summit'']"

text \<open>
  \<^verbatim>\<open>str.capitalize\<close> on ASCII text, which is all the method applies it to: the first
  character in upper case, the others in lower case, characters that are no letters
  unchanged.
\<close>

definition to_upper :: "char \<Rightarrow> char" where
  "to_upper c = (case map_of (zip ascii_lowercase ascii_uppercase) c of Some u \<Rightarrow> u | None \<Rightarrow> c)"

definition to_lower :: "char \<Rightarrow> char" where
  "to_lower c = (case map_of (zip ascii_uppercase ascii_lowercase) c of Some l \<Rightarrow> l | None \<Rightarrow> c)"

definition capitalize :: "string \<Rightarrow> string" where
  "capitalize w = (case w of [] \<Rightarrow> [] | c # cs \<Rightarrow> to_upper c # map to_lower cs)"

text \<open>\<^verbatim>\<open>sep.join(xs)\<close>.\<close>

fun join :: "string \<Rightarrow> string list \<Rightarrow> string" where
  "join sep [] = []"
| "join sep [x] = x"
| "join sep (x # y # ys) = x @ sep @ join sep (y # ys)"

text \<open>\<^verbatim>\<open>str(n)\<close> for a number that is not negative: its decimal digits, with no padding.\<close>

definition digit_char :: "nat \<Rightarrow> char" where
  "digit_char d = string_digits ! d"

function str :: "nat \<Rightarrow> string" where
  "str n = (if n < 10 then [digit_char n] else str (n div 10) @ [digit_char (n mod 10)])"
  by pat_completeness auto
termination
  by (relation "measure (\<lambda>n. n)") auto

declare str.simps [simp del]

text \<open>\<^verbatim>\<open>[secrets.choice(words).capitalize() for _ in range(word_count)]\<close>.\<close>

fun select_words :: "nat \<Rightarrow> state \<Rightarrow> string list result" where
  "select_words 0 s = (Inr [], s)"
| "select_words (Suc n) s =
     (case secrets_choice words s of
        (Inl e, s1) \<Rightarrow> (Inl e, s1)
      | (Inr w, s1) \<Rightarrow>
          (case select_words n s1 of
             (Inl e, s2) \<Rightarrow> (Inl e, s2)
           | (Inr ws, s2) \<Rightarrow> (Inr (capitalize w # ws), s2)))"

text \<open>\<^verbatim>\<open>generate_passphrase(word_count)\<close>; the method makes no check of its argument.\<close>

definition generate_passphrase :: "int \<Rightarrow> state \<Rightarrow> string result" where
  "generate_passphrase word_count s =
     (case select_words (nat word_count) s of
        (Inl e, s1) \<Rightarrow> (Inl e, s1)
      | (Inr selected_words, s1) \<Rightarrow>
          (case secrets_randbelow 100 s1 of
             (Inl e, s2) \<Rightarrow> (Inl e, s2)
           | (Inr n, s2) \<Rightarrow>
               (let passphrase = join ''-'' selected_words @ str n
                in (Inr passphrase, s2\<lparr>history := history s2 @ [passphrase]\<rparr>))))"

text \<open>
  Option 2 of the menu in \<^verbatim>\<open>main\<close>, from the word count it has read (lines 211-222):
  it calls \<^verbatim>\<open>generate_passphrase\<close> for a count from 3 to 6 and prints a rejection
  otherwise. Printing and the clipboard are left out.
\<close>

definition menu_passphrase :: "int \<Rightarrow> state \<Rightarrow> string result" where
  "menu_passphrase word_count s =
     (if 3 \<le> word_count \<and> word_count \<le> 6 then generate_passphrase word_count s
      else (Inl WordCountOutOfRangeError, s))"

subsection \<open>check_strength\<close>

text \<open>
  The argument of \<^verbatim>\<open>check_strength\<close> is read with \<^verbatim>\<open>input()\<close> or comes from the
  generator: a Python string, that is, a sequence of Unicode code points of any value.
  \<open>code_points\<close> gives the code points of a text of the generator.
\<close>

type_synonym pystr = "nat list"

definition code_points :: "string \<Rightarrow> pystr" where
  "code_points s = map of_char s"

text \<open>
  The Unicode character database, as \<^verbatim>\<open>str.islower\<close>, \<^verbatim>\<open>str.isupper\<close>,
  \<^verbatim>\<open>str.isdigit\<close>, \<^verbatim>\<open>str.isalnum\<close> and \<^verbatim>\<open>str.isspace\<close> read it for one character.
  The database belongs to the Python runtime, not to the repository:
  \<^verbatim>\<open>check_strength\<close> takes it as a parameter, and what is proved of it holds for every
  database. The method itself reads the first three properties only.
\<close>

record unicode_db =
  islower :: "nat \<Rightarrow> bool"
  isupper :: "nat \<Rightarrow> bool"
  isdigit :: "nat \<Rightarrow> bool"
  isalnum :: "nat \<Rightarrow> bool"
  isspace :: "nat \<Rightarrow> bool"

text \<open>
  The dictionary \<^verbatim>\<open>check_strength\<close> returns. \<open>Strong\<close>, \<open>Medium\<close> and \<open>Weak\<close> stand for
  the three texts of the source, each of which is the word followed by a coloured circle.
\<close>

datatype rating = Strong | Medium | Weak

record report =
  strength :: rating
  score :: int
  feedback :: "string list"

text \<open>
  One check of character variety on the running pair of \<^verbatim>\<open>score\<close> and
  \<^verbatim>\<open>feedback\<close>: \<^verbatim>\<open>if any(...): score += 1 else: feedback.append(msg)\<close>.
\<close>

definition variety_check :: "bool \<Rightarrow> string \<Rightarrow> int \<times> string list \<Rightarrow> int \<times> string list" where
  "variety_check found msg p =
     (case p of (sc, fb) \<Rightarrow> if found then (sc + 1, fb) else (sc, fb @ [msg]))"

definition length_check :: "pystr \<Rightarrow> int \<times> string list \<Rightarrow> int \<times> string list" where
  "length_check password p =
     (case p of (sc, fb) \<Rightarrow>
        if length password \<ge> 12 then (sc + 2, fb)
        else if length password \<ge> 8 then (sc + 1, fb)
        else (sc, fb @ [''Too short (minimum 8 characters)'']))"

text \<open>
  \<^verbatim>\<open>check_strength(password)\<close>, under the database \<open>db\<close>. The last check is
  \<^verbatim>\<open>c in string.punctuation\<close>, which reads no database.
\<close>

definition check_strength :: "unicode_db \<Rightarrow> pystr \<Rightarrow> report" where
  "check_strength db password =
     (let p0 = (0, []);
          p1 = length_check password p0;
          p2 = variety_check (list_ex (islower db) password) ''Add lowercase letters'' p1;
          p3 = variety_check (list_ex (isupper db) password) ''Add uppercase letters'' p2;
          p4 = variety_check (list_ex (isdigit db) password) ''Add numbers'' p3;
          p5 = variety_check
                 (list_ex (\<lambda>c. c \<in> set (code_points string_punctuation)) password)
                 ''Add special characters'' p4
      in (case p5 of (sc, fb) \<Rightarrow>
            \<lparr>strength = (if sc \<ge> 5 then Strong else if sc \<ge> 3 then Medium else Weak),
             score = sc, feedback = fb\<rparr>))"

text \<open>
  The entries of the Unicode database for the code points 0 to 255: the ASCII letters and
  digits and the characters of the Latin-1 block that have the property. This fragment
  serves to run \<^verbatim>\<open>check_strength\<close> on strings within that range, on which the method
  depends on these entries only (\<open>check_strength_cong\<close> below); it gives no property to a
  code point above 255.
\<close>

definition unicode_0_255 :: unicode_db where
  "unicode_0_255 =
     \<lparr>islower = (\<lambda>c. c \<in> set (code_points ascii_lowercase @
         [0xAA, 0xB5, 0xBA, 0xDF, 0xE0, 0xE1, 0xE2, 0xE3, 0xE4, 0xE5, 0xE6, 0xE7,
          0xE8, 0xE9, 0xEA, 0xEB, 0xEC, 0xED, 0xEE, 0xEF, 0xF0, 0xF1, 0xF2, 0xF3,
          0xF4, 0xF5, 0xF6, 0xF8, 0xF9, 0xFA, 0xFB, 0xFC, 0xFD, 0xFE, 0xFF])),
      isupper = (\<lambda>c. c \<in> set (code_points ascii_uppercase @
         [0xC0, 0xC1, 0xC2, 0xC3, 0xC4, 0xC5, 0xC6, 0xC7, 0xC8, 0xC9, 0xCA, 0xCB,
          0xCC, 0xCD, 0xCE, 0xCF, 0xD0, 0xD1, 0xD2, 0xD3, 0xD4, 0xD5, 0xD6, 0xD8,
          0xD9, 0xDA, 0xDB, 0xDC, 0xDD, 0xDE])),
      isdigit = (\<lambda>c. c \<in> set (code_points string_digits @ [0xB2, 0xB3, 0xB9])),
      isalnum = (\<lambda>c. c \<in> set (code_points ascii_lowercase @ code_points ascii_uppercase @
         code_points string_digits @
         [0xAA, 0xB5, 0xBA, 0xDF, 0xE0, 0xE1, 0xE2, 0xE3, 0xE4, 0xE5, 0xE6, 0xE7,
          0xE8, 0xE9, 0xEA, 0xEB, 0xEC, 0xED, 0xEE, 0xEF, 0xF0, 0xF1, 0xF2, 0xF3,
          0xF4, 0xF5, 0xF6, 0xF8, 0xF9, 0xFA, 0xFB, 0xFC, 0xFD, 0xFE, 0xFF] @
         [0xC0, 0xC1, 0xC2, 0xC3, 0xC4, 0xC5, 0xC6, 0xC7, 0xC8, 0xC9, 0xCA, 0xCB,
          0xCC, 0xCD, 0xCE, 0xCF, 0xD0, 0xD1, 0xD2, 0xD3, 0xD4, 0xD5, 0xD6, 0xD8,
          0xD9, 0xDA, 0xDB, 0xDC, 0xDD, 0xDE] @
         [0xB2, 0xB3, 0xB9] @ [0xBC, 0xBD, 0xBE])),
      isspace = (\<lambda>c. c \<in> set [0x09, 0x0A, 0x0B, 0x0C, 0x0D, 0x1C, 0x1D, 0x1E, 0x1F, 0x20, 0x85, 0xA0])\<rparr>"

subsection \<open>The specification's reading of a symbol and of the passphrase suffix\<close>

text \<open>
  The specification's symbol: any character that is neither alphanumeric nor whitespace;
  and the score it describes, which differs from the code's in the last check only.
\<close>

definition spec_symbol :: "unicode_db \<Rightarrow> nat \<Rightarrow> bool" where
  "spec_symbol db c \<longleftrightarrow> \<not> isalnum db c \<and> \<not> isspace db c"

definition spec_score :: "unicode_db \<Rightarrow> pystr \<Rightarrow> int" where
  "spec_score db candidate =
     (if length candidate \<ge> 12 then 2 else if length candidate \<ge> 8 then 1 else 0) +
     (if list_ex (islower db) candidate then 1 else 0) +
     (if list_ex (isupper db) candidate then 1 else 0) +
     (if list_ex (isdigit db) candidate then 1 else 0) +
     (if list_ex (spec_symbol db) candidate then 1 else 0)"

text \<open>
  The specification's passphrase suffix: the credential ends in two decimal digits.
\<close>

definition spec_two_digit_suffix :: "string \<Rightarrow> bool" where
  "spec_two_digit_suffix p \<longleftrightarrow>
     length p \<ge> 2 \<and> list_all (\<lambda>c. c \<in> set string_digits) (drop (length p - 2) p)"

section \<open>Properties\<close>

subsection \<open>The random sources and the shuffle\<close>

lemma secrets_choice_ok:
  "seq \<noteq> [] \<Longrightarrow>
     secrets_choice seq s =
       (Inr (seq ! (secure s (secure_pos s) mod length seq)), s\<lparr>secure_pos := Suc (secure_pos s)\<rparr>)"
  by (simp add: secrets_choice_def)

lemma secrets_choice_mem:
  "seq \<noteq> [] \<Longrightarrow> seq ! (secure s (secure_pos s) mod length seq) \<in> set seq"
  by simp

lemma choices_ok:
  "seq \<noteq> [] \<Longrightarrow>
     \<exists>cs. choices n seq s = (Inr cs, s\<lparr>secure_pos := secure_pos s + n\<rparr>) \<and>
          length cs = n \<and> set cs \<subseteq> set seq"
proof (induction n arbitrary: s)
  case 0
  then show ?case by simp
next
  case (Suc n)
  let ?s1 = "s\<lparr>secure_pos := Suc (secure_pos s)\<rparr>"
  from Suc.IH [OF Suc.prems, of ?s1] obtain cs where
    cs: "choices n seq ?s1 = (Inr cs, ?s1\<lparr>secure_pos := secure_pos ?s1 + n\<rparr>)"
      "length cs = n" "set cs \<subseteq> set seq"
    by blast
  show ?case
    using cs Suc.prems by (simp add: secrets_choice_ok)
qed

lemma shuffle_from_ok:
  "i < length x \<Longrightarrow>
     \<exists>y. shuffle_from i x s = (y, s\<lparr>twister_pos := twister_pos s + i\<rparr>) \<and> mset y = mset x"
proof (induction i arbitrary: x s)
  case 0
  then show ?case by simp
next
  case (Suc i)
  let ?j = "twister s (twister_pos s) mod (Suc i + 1)"
  let ?x1 = "x[Suc i := x ! ?j, ?j := x ! Suc i]"
  let ?s1 = "s\<lparr>twister_pos := Suc (twister_pos s)\<rparr>"
  have j: "?j < length x"
    using Suc.prems proof -
    have "?j < Suc i + 1" by (rule mod_less_divisor) simp
    with Suc.prems show ?thesis by linarith
  qed
  have m: "mset ?x1 = mset x"
    using mset_swap [OF j Suc.prems] by simp
  have "i < length ?x1" using Suc.prems by simp
  from Suc.IH [OF this, of ?s1] obtain y where
    y: "shuffle_from i ?x1 ?s1 = (y, ?s1\<lparr>twister_pos := twister_pos ?s1 + i\<rparr>)" "mset y = mset ?x1"
    by blast
  show ?case
    using y m by (simp add: random_randbelow_def)
qed

lemma random_shuffle_ok:
  "\<exists>y. random_shuffle x s = (y, s\<lparr>twister_pos := twister_pos s + (length x - 1)\<rparr>) \<and> mset y = mset x"
proof (cases "x = []")
  case True
  then show ?thesis by (simp add: random_shuffle_def)
next
  case False
  then have "length x - 1 < length x" by (cases x) simp_all
  from shuffle_from_ok [OF this] show ?thesis by (simp add: random_shuffle_def)
qed

subsection \<open>The alphabets and the four class blocks\<close>

lemma alphabet_lengths:
  "length (replace_with_empty CHR ''o'' (replace_with_empty CHR ''l'' ascii_lowercase)) = 24"
  "length (replace_with_empty CHR ''O'' (replace_with_empty CHR ''I'' ascii_uppercase)) = 24"
  "length (replace_with_empty CHR ''1'' (replace_with_empty CHR ''0'' string_digits)) = 8"
  "length string_punctuation = 32"
  "length ascii_lowercase = 26" "length ascii_uppercase = 26" "length string_digits = 10"
  by (simp_all add: replace_with_empty_def ascii_lowercase_def ascii_uppercase_def
      string_digits_def string_punctuation_def)

lemma alphabet_for_length:
  "fixed_alphabets s \<Longrightarrow>
     length (alphabet_for cls ex s) =
       (case cls of Lowercase \<Rightarrow> if ex then 24 else 26 | Uppercase \<Rightarrow> if ex then 24 else 26
        | Digit \<Rightarrow> if ex then 8 else 10 | Symbol \<Rightarrow> 32)"
  by (cases cls)
    (simp_all add: fixed_alphabets_def lower_chars_def upper_chars_def digit_chars_def
      alphabet_lengths)

lemma alphabet_for_nonempty: "fixed_alphabets s \<Longrightarrow> alphabet_for cls ex s \<noteq> []"
  using alphabet_for_length [of s cls ex] by (cases cls) (auto split: if_splits)

lemma alphabet_for_secure_pos [simp]:
  "alphabet_for cls ex (s\<lparr>secure_pos := p\<rparr>) = alphabet_for cls ex s"
  by (cases cls) (simp_all add: lower_chars_def upper_chars_def digit_chars_def)

lemma when_class_ok:
  "chars \<noteq> [] \<Longrightarrow>
     when_class use chars (pool, req) s =
       (Inr (pool @ (if use then chars else []),
             req @ (if use then [chars ! (secure s (secure_pos s) mod length chars)] else [])),
        s\<lparr>secure_pos := secure_pos s + (if use then 1 else 0)\<rparr>)"
  by (simp add: when_class_def add_class_def secrets_choice_ok)

lemma class_blocks_ok:
  assumes "fixed_alphabets s"
  shows "\<exists>req. class_blocks use_upper use_lower use_digits use_symbols exclude_ambiguous s =
           (Inr (concat (map (\<lambda>cls. alphabet_for cls exclude_ambiguous s)
                    (enabled_classes use_upper use_lower use_digits use_symbols)), req),
            s\<lparr>secure_pos := secure_pos s + length req\<rparr>) \<and>
         list_all2 (\<lambda>c cls. c \<in> set (alphabet_for cls exclude_ambiguous s)) req
           (enabled_classes use_upper use_lower use_digits use_symbols)"
proof -
  have ne: "lower_chars exclude_ambiguous s \<noteq> []" "upper_chars exclude_ambiguous s \<noteq> []"
    "digit_chars exclude_ambiguous s \<noteq> []" "symbols s \<noteq> []"
    using alphabet_for_nonempty [OF assms, of Lowercase exclude_ambiguous]
      alphabet_for_nonempty [OF assms, of Uppercase exclude_ambiguous]
      alphabet_for_nonempty [OF assms, of Digit exclude_ambiguous]
      alphabet_for_nonempty [OF assms, of Symbol exclude_ambiguous]
    by simp_all
  have upd: "upper_chars exclude_ambiguous (s\<lparr>secure_pos := p\<rparr>) = upper_chars exclude_ambiguous s"
    "digit_chars exclude_ambiguous (s\<lparr>secure_pos := p\<rparr>) = digit_chars exclude_ambiguous s" for p
    by (simp_all add: upper_chars_def digit_chars_def)
  show ?thesis
    unfolding class_blocks_def enabled_classes_def
    by (cases use_lower; cases use_upper; cases use_digits; cases use_symbols;
        simp add: when_class_ok ne upd)
qed

subsection \<open>A successful run of generate_password\<close>

lemma enabled_classes_length: "length (enabled_classes uu ul ud us) \<le> 4"
  by (simp add: enabled_classes_def)

lemma generate_password_ok:
  assumes fa: "fixed_alphabets s" and len: "4 \<le> pw_length"
    and en: "enabled_classes use_upper use_lower use_digits use_symbols \<noteq> []"
  shows "\<exists>req filler password.
      generate_password pw_length use_upper use_lower use_digits use_symbols exclude_ambiguous s =
        (Inr password,
         s\<lparr>secure_pos := secure_pos s + nat pw_length,
           twister_pos := twister_pos s + (nat pw_length - 1),
           history := history s @ [password]\<rparr>) \<and>
      mset password = mset (req @ filler) \<and>
      list_all2 (\<lambda>c cls. c \<in> set (alphabet_for cls exclude_ambiguous s)) req
        (enabled_classes use_upper use_lower use_digits use_symbols) \<and>
      length req + length filler = nat pw_length \<and>
      set filler \<subseteq> (\<Union>cls \<in> set (enabled_classes use_upper use_lower use_digits use_symbols).
                        set (alphabet_for cls exclude_ambiguous s))"
proof -
  let ?cs = "enabled_classes use_upper use_lower use_digits use_symbols"
  let ?pool = "concat (map (\<lambda>cls. alphabet_for cls exclude_ambiguous s) ?cs)"
  from class_blocks_ok [OF fa] obtain req where
    cb: "class_blocks use_upper use_lower use_digits use_symbols exclude_ambiguous s =
           (Inr (?pool, req), s\<lparr>secure_pos := secure_pos s + length req\<rparr>)"
    and req: "list_all2 (\<lambda>c cls. c \<in> set (alphabet_for cls exclude_ambiguous s)) req ?cs"
    by blast
  let ?s1 = "s\<lparr>secure_pos := secure_pos s + length req\<rparr>"
  have lreq: "length req = length ?cs"
    using req by (rule list_all2_lengthD)
  then have lreq4: "int (length req) \<le> pw_length"
    using enabled_classes_length [of use_upper use_lower use_digits use_symbols] len by linarith
  obtain cls where cls: "cls \<in> set ?cs"
    using en by (cases ?cs) auto
  have pool: "?pool \<noteq> []"
    using cls alphabet_for_nonempty [OF fa, of cls exclude_ambiguous] by auto
  let ?n = "nat (pw_length - int (length req))"
  from choices_ok [OF pool, of ?n ?s1] obtain filler where
    ch: "choices ?n ?pool ?s1 = (Inr filler, ?s1\<lparr>secure_pos := secure_pos ?s1 + ?n\<rparr>)"
    and lf: "length filler = ?n" and sf: "set filler \<subseteq> set ?pool"
    by blast
  let ?s2 = "?s1\<lparr>secure_pos := secure_pos ?s1 + ?n\<rparr>"
  from random_shuffle_ok [of "req @ filler" ?s2] obtain password where
    sh: "random_shuffle (req @ filler) ?s2 =
           (password, ?s2\<lparr>twister_pos := twister_pos ?s2 + (length (req @ filler) - 1)\<rparr>)"
    and ms: "mset password = mset (req @ filler)"
    by blast
  have total: "length req + length filler = nat pw_length"
    using lf lreq4 by linarith
  have n: "length req + ?n = nat pw_length"
    using lreq4 by linarith
  have s2: "?s2 = s\<lparr>secure_pos := secure_pos s + nat pw_length\<rparr>"
    using n by (simp add: add.assoc)
  define P where "P = ?pool"
  define s1 where "s1 = ?s1"
  define s3 where "s3 = s\<lparr>secure_pos := secure_pos s + nat pw_length,
                   twister_pos := twister_pos s + (nat pw_length - 1)\<rparr>"
  have cb': "class_blocks use_upper use_lower use_digits use_symbols exclude_ambiguous s =
      (Inr (P, req), s1)"
    using cb by (simp add: P_def s1_def)
  define s2 where "s2 = ?s2"
  have ch': "choices ?n P s1 = (Inr filler, s2)"
    using ch by (simp add: P_def s1_def s2_def)
  have sh': "random_shuffle (req @ filler) s2 = (password, s3)"
    using sh total unfolding s2_def s2 s3_def by simp
  have P: "P \<noteq> []"
    using pool by (simp add: P_def)
  have "generate_password pw_length use_upper use_lower use_digits use_symbols exclude_ambiguous s =
        (Inr password, s3\<lparr>history := history s3 @ [password]\<rparr>)"
    using len P by (simp add: generate_password_def cb' ch' sh' Let_def)
  then have "generate_password pw_length use_upper use_lower use_digits use_symbols exclude_ambiguous s =
        (Inr password,
         s\<lparr>secure_pos := secure_pos s + nat pw_length,
           twister_pos := twister_pos s + (nat pw_length - 1),
           history := history s @ [password]\<rparr>)"
    by (simp add: s3_def)
  moreover have "set filler \<subseteq> (\<Union>cls \<in> set ?cs. set (alphabet_for cls exclude_ambiguous s))"
    using sf by auto
  ultimately show ?thesis
    using ms req total by blast
qed

subsection \<open>The history, and generate_passphrase\<close>

lemma secrets_choice_history:
  "secrets_choice seq s = (r, s') \<Longrightarrow> history s' = history s"
  by (auto simp: secrets_choice_def split: if_splits)

lemma choices_history:
  "choices n seq s = (r, s') \<Longrightarrow> history s' = history s"
proof (induction n arbitrary: s r s')
  case 0
  then show ?case by auto
next
  case (Suc n)
  then show ?case
    by (auto split: prod.splits sum.splits dest: secrets_choice_history)
qed

lemma when_class_history:
  "when_class use chars p s = (r, s') \<Longrightarrow> history s' = history s"
  by (auto simp: when_class_def add_class_def split: if_splits prod.splits sum.splits
      dest: secrets_choice_history)

lemma class_blocks_history:
  "class_blocks uu ul ud us ex s = (r, s') \<Longrightarrow> history s' = history s"
  unfolding class_blocks_def
  by (auto split: prod.splits sum.splits dest!: when_class_history)

lemma shuffle_from_history:
  "shuffle_from i x s = (y, s') \<Longrightarrow> history s' = history s"
  by (induction i arbitrary: x s) (auto simp: random_randbelow_def)

lemma random_shuffle_history:
  "random_shuffle x s = (y, s') \<Longrightarrow> history s' = history s"
  by (auto simp: random_shuffle_def dest: shuffle_from_history)

lemma generate_password_history:
  "generate_password pw_length uu ul ud us ex s = (r, s') \<Longrightarrow>
     history s' = (case r of Inl e \<Rightarrow> history s | Inr password \<Rightarrow> history s @ [password])"
  unfolding generate_password_def Let_def
  by (auto split: if_splits prod.splits sum.splits
      dest!: class_blocks_history choices_history random_shuffle_history)

lemma select_words_ok:
  "\<exists>ws. select_words n s = (Inr (map capitalize ws), s\<lparr>secure_pos := secure_pos s + n\<rparr>) \<and>
        length ws = n \<and> set ws \<subseteq> set words"
proof (induction n arbitrary: s)
  case 0
  then show ?case by simp
next
  case (Suc n)
  let ?s1 = "s\<lparr>secure_pos := Suc (secure_pos s)\<rparr>"
  let ?w = "words ! (secure s (secure_pos s) mod length words)"
  have ne: "words \<noteq> []" by (simp add: words_def)
  from Suc.IH [of ?s1] obtain ws where
    ws: "select_words n ?s1 = (Inr (map capitalize ws), ?s1\<lparr>secure_pos := secure_pos ?s1 + n\<rparr>)"
      "length ws = n" "set ws \<subseteq> set words"
    by blast
  have "?w \<in> set words" using ne by simp
  then have "select_words (Suc n) s = (Inr (map capitalize (?w # ws)), s\<lparr>secure_pos := secure_pos s + Suc n\<rparr>)
     \<and> length (?w # ws) = Suc n \<and> set (?w # ws) \<subseteq> set words"
    using ws ne by (simp add: secrets_choice_ok)
  then show ?case by blast
qed

lemma generate_passphrase_ok:
  "\<exists>ws. generate_passphrase word_count s =
          (Inr (join ''-'' (map capitalize ws) @ str (secure s (secure_pos s + nat word_count) mod 100)),
           s\<lparr>secure_pos := secure_pos s + nat word_count + 1,
             history := history s @
               [join ''-'' (map capitalize ws) @ str (secure s (secure_pos s + nat word_count) mod 100)]\<rparr>) \<and>
        length ws = nat word_count \<and> set ws \<subseteq> set words"
proof -
  from select_words_ok [of "nat word_count" s] obtain ws where
    ws: "select_words (nat word_count) s =
           (Inr (map capitalize ws), s\<lparr>secure_pos := secure_pos s + nat word_count\<rparr>)"
      "length ws = nat word_count" "set ws \<subseteq> set words"
    by blast
  have "generate_passphrase word_count s =
          (Inr (join ''-'' (map capitalize ws) @ str (secure s (secure_pos s + nat word_count) mod 100)),
           s\<lparr>secure_pos := secure_pos s + nat word_count + 1,
             history := history s @
               [join ''-'' (map capitalize ws) @ str (secure s (secure_pos s + nat word_count) mod 100)]\<rparr>)"
    by (simp add: generate_passphrase_def ws secrets_randbelow_def Let_def)
  with ws show ?thesis by blast
qed

lemma str_below_100:
  "n < 100 \<Longrightarrow> str n = (if n < 10 then [digit_char n] else [digit_char (n div 10), digit_char (n mod 10)])"
  by (subst str.simps, subst str.simps) auto

lemma digit_char_digit: "d < 10 \<Longrightarrow> digit_char d \<in> set string_digits"
proof -
  assume "d < 10"
  then have "d < length string_digits" by (simp add: string_digits_def)
  then show ?thesis unfolding digit_char_def by (rule nth_mem)
qed

subsection \<open>Class coverage and length\<close>

lemma alphabet_for_base:
  "fixed_alphabets s \<Longrightarrow> set (alphabet_for cls ex s) \<subseteq> set (base_alphabet cls)"
  by (cases cls)
    (auto simp: fixed_alphabets_def lower_chars_def upper_chars_def digit_chars_def
      replace_with_empty_def)

lemma list_all2_covers:
  "list_all2 P xs ys \<Longrightarrow> y \<in> set ys \<Longrightarrow> \<exists>x \<in> set xs. P x y"
  by (induction rule: list_all2_induct) auto

text \<open>
  C1. For every valid configuration (a length of at least 4 and at least the number of
  enabled classes, and at least one class enabled), \<^verbatim>\<open>generate_password\<close> returns a
  password that contains at least one character of every enabled class.
\<close>

theorem generate_password_class_coverage:
  assumes "fixed_alphabets s"
    and "max 4 (int (length (enabled_classes use_upper use_lower use_digits use_symbols))) \<le> pw_length"
    and "1 \<le> length (enabled_classes use_upper use_lower use_digits use_symbols)"
  shows "\<exists>password s'.
      generate_password pw_length use_upper use_lower use_digits use_symbols exclude_ambiguous s =
        (Inr password, s') \<and>
      (\<forall>cls \<in> set (enabled_classes use_upper use_lower use_digits use_symbols).
         \<exists>c \<in> set password. c \<in> set (base_alphabet cls))"
proof -
  let ?cs = "enabled_classes use_upper use_lower use_digits use_symbols"
  have len: "4 \<le> pw_length" and en: "?cs \<noteq> []"
    using assms(2,3) by auto
  from generate_password_ok [OF assms(1) len en, of exclude_ambiguous]
  obtain req filler password s' where
    run: "generate_password pw_length use_upper use_lower use_digits use_symbols exclude_ambiguous s =
            (Inr password, s')"
    and ms: "mset password = mset (req @ filler)"
    and req: "list_all2 (\<lambda>c cls. c \<in> set (alphabet_for cls exclude_ambiguous s)) req ?cs"
    by blast
  have sp: "set password = set req \<union> set filler"
    using mset_eq_setD [OF ms] by simp
  have "\<exists>c \<in> set password. c \<in> set (base_alphabet cls)" if "cls \<in> set ?cs" for cls
  proof -
    from list_all2_covers [OF req that] obtain c where
      "c \<in> set req" "c \<in> set (alphabet_for cls exclude_ambiguous s)"
      by blast
    with alphabet_for_base [OF assms(1), of cls exclude_ambiguous] sp show ?thesis
      by blast
  qed
  with run show ?thesis by blast
qed

theorem generate_password_class_coverage_witness:
  "fixed_alphabets (init (\<lambda>i. 7 * i + 3) (\<lambda>i. 5 * i)) \<and>
   max 4 (int (length (enabled_classes True True True False))) \<le> 12 \<and>
   1 \<le> length (enabled_classes True True True False) \<and>
   (\<exists>password s'.
      generate_password 12 True True True False True (init (\<lambda>i. 7 * i + 3) (\<lambda>i. 5 * i)) =
        (Inr password, s') \<and>
      (\<forall>cls \<in> set (enabled_classes True True True False).
         \<exists>c \<in> set password. c \<in> set (base_alphabet cls)))"
proof -
  have a: "fixed_alphabets (init (\<lambda>i. 7 * i + 3) (\<lambda>i. 5 * i))"
    by (simp add: fixed_alphabets_def init_def)
  have b: "max 4 (int (length (enabled_classes True True True False))) \<le> 12"
    by (simp add: enabled_classes_def)
  have c: "1 \<le> length (enabled_classes True True True False)"
    by (simp add: enabled_classes_def)
  from generate_password_class_coverage [OF a b c, of True] a b c show ?thesis
    by blast
qed

text \<open>
  C2. For every valid configuration, \<^verbatim>\<open>generate_password\<close> returns a password whose
  length is exactly the requested length.
\<close>

theorem generate_password_length:
  assumes "fixed_alphabets s"
    and "max 4 (int (length (enabled_classes use_upper use_lower use_digits use_symbols))) \<le> pw_length"
    and "1 \<le> length (enabled_classes use_upper use_lower use_digits use_symbols)"
  shows "\<exists>password s'.
      generate_password pw_length use_upper use_lower use_digits use_symbols exclude_ambiguous s =
        (Inr password, s') \<and>
      int (length password) = pw_length"
proof -
  let ?cs = "enabled_classes use_upper use_lower use_digits use_symbols"
  have len: "4 \<le> pw_length" and en: "?cs \<noteq> []"
    using assms(2,3) by auto
  from generate_password_ok [OF assms(1) len en, of exclude_ambiguous]
  obtain req filler password s' where
    run: "generate_password pw_length use_upper use_lower use_digits use_symbols exclude_ambiguous s =
            (Inr password, s')"
    and ms: "mset password = mset (req @ filler)"
    and total: "length req + length filler = nat pw_length"
    by blast
  have "length password = length (req @ filler)"
    using ms by (rule mset_eq_length)
  with total len have "int (length password) = pw_length"
    by simp
  with run show ?thesis by blast
qed

theorem generate_password_length_witness:
  "fixed_alphabets (init (\<lambda>i. 7 * i + 3) (\<lambda>i. 5 * i)) \<and>
   max 4 (int (length (enabled_classes False True False True))) \<le> 9 \<and>
   1 \<le> length (enabled_classes False True False True) \<and>
   (\<exists>password s'.
      generate_password 9 False True False True False (init (\<lambda>i. 7 * i + 3) (\<lambda>i. 5 * i)) =
        (Inr password, s') \<and>
      int (length password) = 9)"
proof -
  have a: "fixed_alphabets (init (\<lambda>i. 7 * i + 3) (\<lambda>i. 5 * i))"
    by (simp add: fixed_alphabets_def init_def)
  have b: "max 4 (int (length (enabled_classes False True False True))) \<le> 9"
    by (simp add: enabled_classes_def)
  have c: "1 \<le> length (enabled_classes False True False True)"
    by (simp add: enabled_classes_def)
  from generate_password_length [OF a b c, of False] a b c show ?thesis
    by blast
qed

subsection \<open>Ambiguous characters\<close>

lemma alphabet_for_unambiguous:
  "fixed_alphabets s \<Longrightarrow> set (alphabet_for cls True s) \<inter> set ''loIO01'' = {}"
  by (cases cls)
    (auto simp: fixed_alphabets_def lower_chars_def upper_chars_def digit_chars_def
      replace_with_empty_def ascii_lowercase_def ascii_uppercase_def string_digits_def
      string_punctuation_def)

lemma list_all2_covered:
  "list_all2 P xs ys \<Longrightarrow> x \<in> set xs \<Longrightarrow> \<exists>y \<in> set ys. P x y"
  by (induction rule: list_all2_induct) auto

lemma ambiguous_subset: "set (ambiguous cls) \<subseteq> set ''loIO01''"
  by (cases cls) auto

text \<open>
  C6. For every valid configuration with \<^verbatim>\<open>exclude_ambiguous\<close> set,
  \<^verbatim>\<open>generate_password\<close> returns a password with no character of an enabled class's
  ambiguous subset, and indeed none of l, o, I, O, 0 and 1 at all; the symbols are not
  narrowed.
\<close>

theorem generate_password_excludes_ambiguous:
  assumes "fixed_alphabets s"
    and "max 4 (int (length (enabled_classes use_upper use_lower use_digits use_symbols))) \<le> pw_length"
    and "1 \<le> length (enabled_classes use_upper use_lower use_digits use_symbols)"
  shows "\<exists>password s'.
      generate_password pw_length use_upper use_lower use_digits use_symbols True s =
        (Inr password, s') \<and>
      (\<forall>cls \<in> set (enabled_classes use_upper use_lower use_digits use_symbols).
         set password \<inter> set (ambiguous cls) = {}) \<and>
      set password \<inter> set ''loIO01'' = {} \<and>
      ambiguous Symbol = [] \<and> alphabet_for Symbol True s = string_punctuation"
proof -
  let ?cs = "enabled_classes use_upper use_lower use_digits use_symbols"
  have len: "4 \<le> pw_length" and en: "?cs \<noteq> []"
    using assms(2,3) by auto
  from generate_password_ok [OF assms(1) len en, of True]
  obtain req filler password s' where
    run: "generate_password pw_length use_upper use_lower use_digits use_symbols True s =
            (Inr password, s')"
    and ms: "mset password = mset (req @ filler)"
    and req: "list_all2 (\<lambda>c cls. c \<in> set (alphabet_for cls True s)) req ?cs"
    and filler: "set filler \<subseteq> (\<Union>cls \<in> set ?cs. set (alphabet_for cls True s))"
    by blast
  have sp: "set password = set req \<union> set filler"
    using mset_eq_setD [OF ms] by simp
  have "\<exists>cls. c \<in> set (alphabet_for cls True s)" if "c \<in> set req" for c
    using list_all2_covered [OF req that] by blast
  with filler sp have "\<forall>c \<in> set password. \<exists>cls. c \<in> set (alphabet_for cls True s)"
    by blast
  with alphabet_for_unambiguous [OF assms(1)] have none: "set password \<inter> set ''loIO01'' = {}"
    by blast
  then have "\<forall>cls \<in> set ?cs. set password \<inter> set (ambiguous cls) = {}"
    using ambiguous_subset by blast
  moreover have "alphabet_for Symbol True s = string_punctuation"
    using assms(1) by (simp add: fixed_alphabets_def)
  ultimately show ?thesis
    using run none by auto
qed

theorem generate_password_excludes_ambiguous_witness:
  "fixed_alphabets (init (\<lambda>i. 11 * i) (\<lambda>i. i)) \<and>
   max 4 (int (length (enabled_classes True True True True))) \<le> 16 \<and>
   1 \<le> length (enabled_classes True True True True) \<and>
   (\<exists>password s'.
      generate_password 16 True True True True True (init (\<lambda>i. 11 * i) (\<lambda>i. i)) =
        (Inr password, s') \<and>
      (\<forall>cls \<in> set (enabled_classes True True True True).
         set password \<inter> set (ambiguous cls) = {}) \<and>
      set password \<inter> set ''loIO01'' = {} \<and>
      ambiguous Symbol = [] \<and>
      alphabet_for Symbol True (init (\<lambda>i. 11 * i) (\<lambda>i. i)) = string_punctuation)"
proof -
  have a: "fixed_alphabets (init (\<lambda>i. 11 * i) (\<lambda>i. i))"
    by (simp add: fixed_alphabets_def init_def)
  have b: "max 4 (int (length (enabled_classes True True True True))) \<le> 16"
    by (simp add: enabled_classes_def)
  have c: "1 \<le> length (enabled_classes True True True True)"
    by (simp add: enabled_classes_def)
  from generate_password_excludes_ambiguous [OF a b c] a b c show ?thesis
    by blast
qed

subsection \<open>Errors\<close>

lemma enabled_classes_empty:
  "enabled_classes use_upper use_lower use_digits use_symbols = [] \<longleftrightarrow>
     \<not> use_upper \<and> \<not> use_lower \<and> \<not> use_digits \<and> \<not> use_symbols"
  by (simp add: enabled_classes_def)

lemma generate_password_short:
  "pw_length < 4 \<Longrightarrow>
     generate_password pw_length use_upper use_lower use_digits use_symbols exclude_ambiguous s =
       (Inl InvalidLengthError, s)"
  by (simp add: generate_password_def)

lemma generate_password_no_class:
  "4 \<le> pw_length \<Longrightarrow>
     generate_password pw_length False False False False exclude_ambiguous s =
       (Inl NoClassSelectedError, s)"
  by (simp add: generate_password_def class_blocks_def when_class_def)

text \<open>
  C4. \<^verbatim>\<open>generate_password\<close> fails with the length error exactly when the length is
  below 4 or below the number of enabled classes, with the no-class error exactly when no
  class is enabled and the length is acceptable, and returns a password for every
  configuration that meets both preconditions.
\<close>

theorem generate_password_errors:
  assumes "fixed_alphabets s"
  shows "(fst (generate_password pw_length use_upper use_lower use_digits use_symbols
                 exclude_ambiguous s) = Inl InvalidLengthError \<longleftrightarrow>
            pw_length < 4 \<or>
            pw_length < int (length (enabled_classes use_upper use_lower use_digits use_symbols))) \<and>
         (fst (generate_password pw_length use_upper use_lower use_digits use_symbols
                 exclude_ambiguous s) = Inl NoClassSelectedError \<longleftrightarrow>
            enabled_classes use_upper use_lower use_digits use_symbols = [] \<and>
            \<not> (pw_length < 4 \<or>
               pw_length < int (length (enabled_classes use_upper use_lower use_digits use_symbols)))) \<and>
         (4 \<le> pw_length \<and>
          int (length (enabled_classes use_upper use_lower use_digits use_symbols)) \<le> pw_length \<and>
          enabled_classes use_upper use_lower use_digits use_symbols \<noteq> [] \<longrightarrow>
          (\<exists>password. fst (generate_password pw_length use_upper use_lower use_digits use_symbols
                              exclude_ambiguous s) = Inr password))"
proof -
  let ?cs = "enabled_classes use_upper use_lower use_digits use_symbols"
  let ?r = "fst (generate_password pw_length use_upper use_lower use_digits use_symbols
                   exclude_ambiguous s)"
  have k: "int (length ?cs) \<le> 4"
    using enabled_classes_length [of use_upper use_lower use_digits use_symbols] by simp
  consider (short) "pw_length < 4" | (none) "4 \<le> pw_length" "?cs = []"
    | (valid) "4 \<le> pw_length" "?cs \<noteq> []"
    by linarith
  then show ?thesis
  proof cases
    case short
    then have "?r = Inl InvalidLengthError"
      by (simp add: generate_password_short)
    with short show ?thesis by simp
  next
    case none
    then have "?r = Inl NoClassSelectedError"
      by (simp add: enabled_classes_empty generate_password_no_class)
    with none show ?thesis by simp
  next
    case valid
    from generate_password_ok [OF assms valid, of exclude_ambiguous]
    obtain password where "?r = Inr password"
      by force
    with valid k show ?thesis by auto
  qed
qed

theorem generate_password_errors_witness:
  "fixed_alphabets (init (\<lambda>i. i) (\<lambda>i. i)) \<and>
   fst (generate_password 3 True True True True False (init (\<lambda>i. i) (\<lambda>i. i))) =
     Inl InvalidLengthError \<and>
   fst (generate_password 8 False False False False False (init (\<lambda>i. i) (\<lambda>i. i))) =
     Inl NoClassSelectedError \<and>
   (\<exists>password. fst (generate_password 4 True True True True False (init (\<lambda>i. i) (\<lambda>i. i))) =
      Inr password)"
proof -
  have a: "fixed_alphabets (init (\<lambda>i. i) (\<lambda>i. i))"
    by (simp add: fixed_alphabets_def init_def)
  show ?thesis
    using a generate_password_errors [OF a, of 3 True True True True False]
      generate_password_errors [OF a, of 8 False False False False False]
      generate_password_errors [OF a, of 4 True True True True False]
    by (simp add: enabled_classes_def)
qed

lemma space_not_in_alphabet: "CHR '' '' \<notin> set (base_alphabet cls)"
  by (cases cls)
    (simp_all add: ascii_lowercase_def ascii_uppercase_def string_digits_def
      string_punctuation_def)

text \<open>
  The message returned for a failure cannot be taken for a password: no password that
  \<^verbatim>\<open>generate_password\<close> returns is one of the two messages.
\<close>

lemma generate_password_no_message:
  assumes fa: "fixed_alphabets s"
    and run: "generate_password pw_length use_upper use_lower use_digits use_symbols
                exclude_ambiguous s = (Inr password, s')"
  shows "password \<noteq> error_message InvalidLengthError \<and>
         password \<noteq> error_message NoClassSelectedError"
proof -
  let ?cs = "enabled_classes use_upper use_lower use_digits use_symbols"
  have len: "4 \<le> pw_length"
    using run generate_password_short
      [of pw_length use_upper use_lower use_digits use_symbols exclude_ambiguous s]
    by (cases "pw_length < 4") simp_all
  have en: "?cs \<noteq> []"
  proof
    assume "?cs = []"
    then have "generate_password pw_length use_upper use_lower use_digits use_symbols
                 exclude_ambiguous s = (Inl NoClassSelectedError, s)"
      using len by (simp add: enabled_classes_empty generate_password_no_class)
    with run show False by simp
  qed
  from generate_password_ok [OF fa len en, of exclude_ambiguous] run
  obtain req filler where
    ms: "mset password = mset (req @ filler)"
    and req: "list_all2 (\<lambda>c cls. c \<in> set (alphabet_for cls exclude_ambiguous s)) req ?cs"
    and filler: "set filler \<subseteq> (\<Union>cls \<in> set ?cs. set (alphabet_for cls exclude_ambiguous s))"
    by auto
  have sp: "set password = set req \<union> set filler"
    using mset_eq_setD [OF ms] by simp
  have "\<exists>cls. c \<in> set (alphabet_for cls exclude_ambiguous s)" if "c \<in> set req" for c
    using list_all2_covered [OF req that] by blast
  with filler sp have "\<forall>c \<in> set password. \<exists>cls. c \<in> set (base_alphabet cls)"
    using alphabet_for_base [OF fa] by blast
  then have "CHR '' '' \<notin> set password"
    using space_not_in_alphabet by blast
  moreover have "CHR '' '' \<in> set (error_message InvalidLengthError)"
    "CHR '' '' \<in> set (error_message NoClassSelectedError)"
    by (simp_all add: error_message_def)
  ultimately show ?thesis by blast
qed

subsection \<open>The alphabets never change\<close>

text \<open>
  The hypothesis \<open>fixed_alphabets\<close> of the results above holds after \<^verbatim>\<open>__init__\<close> and is
  kept by every method, whatever it returns.
\<close>

lemma fixed_alphabets_init: "fixed_alphabets (init sec tw)"
  by (simp add: fixed_alphabets_def init_def)

lemma secrets_choice_alphabets:
  "secrets_choice seq s = (r, s') \<Longrightarrow> fixed_alphabets s' = fixed_alphabets s"
  by (auto simp: secrets_choice_def fixed_alphabets_def split: if_splits)

lemma choices_alphabets:
  "choices n seq s = (r, s') \<Longrightarrow> fixed_alphabets s' = fixed_alphabets s"
proof (induction n arbitrary: s r s')
  case 0
  then show ?case by auto
next
  case (Suc n)
  then show ?case
    by (auto split: prod.splits sum.splits dest: secrets_choice_alphabets)
qed

lemma when_class_alphabets:
  "when_class use chars p s = (r, s') \<Longrightarrow> fixed_alphabets s' = fixed_alphabets s"
  by (auto simp: when_class_def add_class_def split: if_splits prod.splits sum.splits
      dest: secrets_choice_alphabets)

lemma class_blocks_alphabets:
  "class_blocks uu ul ud us ex s = (r, s') \<Longrightarrow> fixed_alphabets s' = fixed_alphabets s"
  unfolding class_blocks_def
  by (auto split: prod.splits sum.splits dest!: when_class_alphabets)

lemma shuffle_from_alphabets:
  "shuffle_from i x s = (y, s') \<Longrightarrow> fixed_alphabets s' = fixed_alphabets s"
proof (induction i arbitrary: x s)
  case 0
  then show ?case by simp
next
  case (Suc i)
  from Suc.prems Suc.IH show ?case
    by (fastforce simp: random_randbelow_def fixed_alphabets_def)
qed

lemma random_shuffle_alphabets:
  "random_shuffle x s = (y, s') \<Longrightarrow> fixed_alphabets s' = fixed_alphabets s"
  by (auto simp: random_shuffle_def dest: shuffle_from_alphabets)

lemma generate_password_alphabets:
  "generate_password pw_length uu ul ud us ex s = (r, s') \<Longrightarrow>
     fixed_alphabets s' = fixed_alphabets s"
  unfolding generate_password_def Let_def
  by (auto simp: fixed_alphabets_def split: if_splits prod.splits sum.splits
      dest!: class_blocks_alphabets choices_alphabets random_shuffle_alphabets)

lemma generate_passphrase_alphabets:
  "generate_passphrase word_count s = (r, s') \<Longrightarrow> fixed_alphabets s' = fixed_alphabets s"
  using generate_passphrase_ok [of word_count s]
  by (auto simp: fixed_alphabets_def)

subsection \<open>Non-empty pools\<close>

text \<open>
  C10. Removing the ambiguous characters leaves 24 lowercase letters, 24 uppercase
  letters, 8 digits and 32 symbols, so no alphabet is empty with or without the exclusion;
  for a length of at least 4 and at least one enabled class the four blocks end without an
  exception and with a non-empty pool, and \<^verbatim>\<open>generate_password\<close> returns a password and
  neither of its errors.
\<close>

theorem generate_password_pools_nonempty:
  assumes "fixed_alphabets s"
  shows "length (alphabet_for Lowercase True s) = 24 \<and>
         length (alphabet_for Uppercase True s) = 24 \<and>
         length (alphabet_for Digit True s) = 8 \<and>
         length (alphabet_for Symbol True s) = 32 \<and>
         (\<forall>cls ex. alphabet_for cls ex s \<noteq> []) \<and>
         (4 \<le> pw_length \<and> enabled_classes use_upper use_lower use_digits use_symbols \<noteq> [] \<longrightarrow>
            (\<exists>char_pool required_chars s1.
               class_blocks use_upper use_lower use_digits use_symbols exclude_ambiguous s =
                 (Inr (char_pool, required_chars), s1) \<and> char_pool \<noteq> []) \<and>
            (\<exists>password s'.
               generate_password pw_length use_upper use_lower use_digits use_symbols
                 exclude_ambiguous s = (Inr password, s')))"
proof -
  let ?cs = "enabled_classes use_upper use_lower use_digits use_symbols"
  have sizes: "length (alphabet_for Lowercase True s) = 24"
    "length (alphabet_for Uppercase True s) = 24"
    "length (alphabet_for Digit True s) = 8"
    "length (alphabet_for Symbol True s) = 32"
    using assms by (simp_all add: alphabet_for_length del: alphabet_for.simps)
  have ne: "\<forall>cls ex. alphabet_for cls ex s \<noteq> []"
    using alphabet_for_nonempty [OF assms] by blast
  have run: "(\<exists>char_pool required_chars s1.
               class_blocks use_upper use_lower use_digits use_symbols exclude_ambiguous s =
                 (Inr (char_pool, required_chars), s1) \<and> char_pool \<noteq> []) \<and>
            (\<exists>password s'.
               generate_password pw_length use_upper use_lower use_digits use_symbols
                 exclude_ambiguous s = (Inr password, s'))"
    if len: "4 \<le> pw_length" and en: "?cs \<noteq> []"
  proof
    from en obtain cls where "cls \<in> set ?cs"
      by (cases ?cs) auto
    with ne have "concat (map (\<lambda>cls. alphabet_for cls exclude_ambiguous s) ?cs) \<noteq> []"
      by auto
    with class_blocks_ok [OF assms, of use_upper use_lower use_digits use_symbols exclude_ambiguous]
    show "\<exists>char_pool required_chars s1.
               class_blocks use_upper use_lower use_digits use_symbols exclude_ambiguous s =
                 (Inr (char_pool, required_chars), s1) \<and> char_pool \<noteq> []"
      by blast
    from generate_password_ok [OF assms len en, of exclude_ambiguous]
    show "\<exists>password s'.
               generate_password pw_length use_upper use_lower use_digits use_symbols
                 exclude_ambiguous s = (Inr password, s')"
      by blast
  qed
  from sizes ne run show ?thesis
    by blast
qed

theorem generate_password_pools_nonempty_witness:
  "fixed_alphabets (init (\<lambda>i. 3 * i) (\<lambda>i. i)) \<and>
   length (alphabet_for Digit True (init (\<lambda>i. 3 * i) (\<lambda>i. i))) = 8 \<and>
   (\<exists>password s'.
      generate_password 4 False False True False True (init (\<lambda>i. 3 * i) (\<lambda>i. i)) =
        (Inr password, s'))"
proof -
  have a: "fixed_alphabets (init (\<lambda>i. 3 * i) (\<lambda>i. i))"
    by (simp add: fixed_alphabets_def init_def)
  have b: "enabled_classes False False True False \<noteq> []"
    by (simp add: enabled_classes_def)
  from generate_password_pools_nonempty [OF a, of 4 False False True False True] a b
  show ?thesis
    by simp
qed

subsection \<open>The history\<close>

lemma generate_passphrase_history:
  "generate_passphrase word_count s = (r, s') \<Longrightarrow>
     (\<exists>passphrase. r = Inr passphrase \<and> history s' = history s @ [passphrase])"
  using generate_passphrase_ok [of word_count s] by auto

text \<open>
  C5. A call of \<^verbatim>\<open>generate_password\<close> or \<^verbatim>\<open>generate_passphrase\<close> that fails
  leaves the history as it was, and a call that succeeds appends the credential it returns,
  once, at the end. A word count rejected by the menu leaves the whole state as it was.
\<close>

theorem generation_history:
  "(case generate_password pw_length use_upper use_lower use_digits use_symbols
           exclude_ambiguous s of
      (Inl e, s') \<Rightarrow> history s' = history s
    | (Inr password, s') \<Rightarrow> history s' = history s @ [password]) \<and>
   (case generate_passphrase word_count s of
      (Inl e, s') \<Rightarrow> history s' = history s
    | (Inr passphrase, s') \<Rightarrow> history s' = history s @ [passphrase]) \<and>
   (case menu_passphrase word_count s of
      (Inl e, s') \<Rightarrow> s' = s
    | (Inr passphrase, s') \<Rightarrow> history s' = history s @ [passphrase])"
proof (intro conjI)
  show "case generate_password pw_length use_upper use_lower use_digits use_symbols
           exclude_ambiguous s of
      (Inl e, s') \<Rightarrow> history s' = history s
    | (Inr password, s') \<Rightarrow> history s' = history s @ [password]"
    using generate_password_history
      [of pw_length use_upper use_lower use_digits use_symbols exclude_ambiguous s]
    by (auto split: prod.splits sum.splits)
  show pp: "case generate_passphrase word_count s of
      (Inl e, s') \<Rightarrow> history s' = history s
    | (Inr passphrase, s') \<Rightarrow> history s' = history s @ [passphrase]"
    using generate_passphrase_history [of word_count s]
    by (auto split: prod.splits sum.splits)
  show "case menu_passphrase word_count s of
      (Inl e, s') \<Rightarrow> s' = s
    | (Inr passphrase, s') \<Rightarrow> history s' = history s @ [passphrase]"
    using generate_passphrase_history [of word_count s]
    by (auto simp: menu_passphrase_def split: prod.splits sum.splits)
qed

theorem generation_history_witness:
  "history (snd (generate_password 3 True True True True False
      ((init (\<lambda>i. 0) (\<lambda>i. 0))\<lparr>history := [''Kilo-Lima-Mike42'']\<rparr>))) = [''Kilo-Lima-Mike42''] \<and>
   history (snd (generate_password 4 True True True True False
      ((init (\<lambda>i. 0) (\<lambda>i. 0))\<lparr>history := [''Kilo-Lima-Mike42'']\<rparr>))) =
     [''Kilo-Lima-Mike42'', ''A0!a'']"
proof -
  let ?s = "(init (\<lambda>i. 0) (\<lambda>i. 0))\<lparr>history := [''Kilo-Lima-Mike42'']\<rparr>"
  have short: "fst (generate_password 3 True True True True False ?s) = Inl InvalidLengthError"
    by (simp add: generate_password_short)
  have run: "fst (generate_password 4 True True True True False ?s) = Inr ''A0!a''"
    by code_simp
  have h: "history ?s = [''Kilo-Lima-Mike42'']"
    by simp
  show ?thesis
    using generation_history [where pw_length = 3 and use_upper = True and use_lower = True
        and use_digits = True and use_symbols = True and exclude_ambiguous = False
        and s = ?s and word_count = 3] short
      generation_history [where pw_length = 4 and use_upper = True and use_lower = True
        and use_digits = True and use_symbols = True and exclude_ambiguous = False
        and s = ?s and word_count = 3] run
    unfolding h
    by (auto split: prod.splits sum.splits)
qed

subsection \<open>generate_passphrase\<close>

text \<open>The method, called with 7 words, returns a passphrase of 7 words.\<close>

theorem generate_passphrase_7_counterexample:
  "fst (generate_passphrase 7 (init (\<lambda>i. i) (\<lambda>i. 0))) =
     Inr ''Alpha-Bravo-Charlie-Delta-Echo-Foxtrot-Golf7''"
  by code_simp

text \<open>
  C8, as amended. \<^verbatim>\<open>generate_passphrase\<close> checks nothing: it returns a credential for
  every word count. The range from 3 to 6 is kept by its caller, option 2 of the menu,
  which rejects exactly the word counts outside it, without calling the method.
\<close>

theorem generate_passphrase_total:
  "(\<exists>passphrase s'. generate_passphrase word_count s = (Inr passphrase, s')) \<and>
   (menu_passphrase word_count s = (Inl WordCountOutOfRangeError, s) \<longleftrightarrow>
      word_count < 3 \<or> 6 < word_count) \<and>
   (fst (menu_passphrase word_count s) = Inl WordCountOutOfRangeError \<longleftrightarrow>
      word_count < 3 \<or> 6 < word_count)"
proof -
  from generate_passphrase_ok [of word_count s] obtain passphrase s' where
    run: "generate_passphrase word_count s = (Inr passphrase, s')"
    by blast
  then show ?thesis
    by (auto simp: menu_passphrase_def)
qed

text \<open>When the number drawn for the suffix is 5, the suffix is the single digit 5.\<close>

theorem generate_passphrase_suffix_counterexample:
  "fst (generate_passphrase 3 (init (\<lambda>i. 5) (\<lambda>i. 0))) = Inr ''Foxtrot-Foxtrot-Foxtrot5'' \<and>
   \<not> spec_two_digit_suffix ''Foxtrot-Foxtrot-Foxtrot5''"
  by code_simp

lemma words_length: "length words = 35"
  by (simp add: words_def)

lemma str_digits:
  "n < 100 \<Longrightarrow> set (str n) \<subseteq> set string_digits \<and> length (str n) = (if n < 10 then 1 else 2)"
  by (simp add: str_below_100 digit_char_digit)

text \<open>
  C9, as amended. For a word count from 3 to 6, \<^verbatim>\<open>generate_passphrase\<close> returns that
  many capitalized words of the fixed list of 35, joined by hyphens, and directly after the
  last word the decimal text of a number below 100 drawn from the secure source: one digit
  for a draw below 10, two digits otherwise.
\<close>

theorem generate_passphrase_shape:
  assumes "3 \<le> word_count" and "word_count \<le> 6"
  shows "\<exists>ws d s'.
      generate_passphrase word_count s = (Inr (join ''-'' (map capitalize ws) @ str d), s') \<and>
      int (length ws) = word_count \<and> set ws \<subseteq> set words \<and> length words = 35 \<and>
      d = secure s (secure_pos s + nat word_count) mod 100 \<and> d < 100 \<and>
      set (str d) \<subseteq> set string_digits \<and>
      length (str d) = (if d < 10 then 1 else 2)"
proof -
  let ?d = "secure s (secure_pos s + nat word_count) mod 100"
  from generate_passphrase_ok [of word_count s] obtain ws s' where
    run: "generate_passphrase word_count s = (Inr (join ''-'' (map capitalize ws) @ str ?d), s')"
    and ws: "length ws = nat word_count" "set ws \<subseteq> set words"
    by blast
  have d: "?d < 100" by simp
  have "int (length ws) = word_count"
    using ws(1) assms(1) by simp
  with run ws(2) words_length d str_digits [OF d] show ?thesis
    by blast
qed

theorem generate_passphrase_shape_witness:
  "(3::int) \<le> 4 \<and> (4::int) \<le> 6 \<and>
   (\<exists>ws d s'.
      generate_passphrase 4 (init (\<lambda>i. 9 * i + 1) (\<lambda>i. 0)) =
        (Inr (join ''-'' (map capitalize ws) @ str d), s') \<and>
      int (length ws) = 4 \<and> set ws \<subseteq> set words \<and> length words = 35 \<and>
      d = secure (init (\<lambda>i. 9 * i + 1) (\<lambda>i. 0))
            (secure_pos (init (\<lambda>i. 9 * i + 1) (\<lambda>i. 0)) + nat 4) mod 100 \<and> d < 100 \<and>
      set (str d) \<subseteq> set string_digits \<and>
      length (str d) = (if d < 10 then 1 else 2))"
  using generate_passphrase_shape [of 4 "init (\<lambda>i. 9 * i + 1) (\<lambda>i. 0)"]
  by simp

subsection \<open>check_strength\<close>

text \<open>
  \<^verbatim>\<open>check_strength\<close> reads the database at the characters of its argument only.
\<close>

lemma list_ex_cong_set: "(\<forall>c \<in> set xs. P c = Q c) \<Longrightarrow> list_ex P xs = list_ex Q xs"
  by (induction xs) auto

lemma check_strength_cong:
  assumes "\<forall>c \<in> set password.
      islower db c = islower db' c \<and> isupper db c = isupper db' c \<and> isdigit db c = isdigit db' c"
  shows "check_strength db password = check_strength db' password"
proof -
  have "list_ex (islower db) password = list_ex (islower db') password"
    "list_ex (isupper db) password = list_ex (isupper db') password"
    "list_ex (isdigit db) password = list_ex (isdigit db') password"
    using assms by (auto intro!: list_ex_cong_set)
  then show ?thesis
    by (simp add: check_strength_def)
qed

text \<open>
  The pound sign, code point 0xA3, is neither alphanumeric nor whitespace, and is no
  character of \<^verbatim>\<open>string.punctuation\<close>: the specification's score counts it as a symbol,
  \<^verbatim>\<open>check_strength\<close> does not.
\<close>

theorem check_strength_symbol_counterexample:
  "spec_symbol unicode_0_255 0xA3 \<and> spec_score unicode_0_255 [0xA3] = 1 \<and>
   score (check_strength unicode_0_255 [0xA3]) = 0 \<and>
   ''Add special characters'' \<in> set (feedback (check_strength unicode_0_255 [0xA3]))"
  by code_simp

text \<open>
  The same under any database that calls the pound sign neither alphanumeric nor
  whitespace, as the Unicode database does: the specification's score is one above the
  score of \<^verbatim>\<open>check_strength\<close>.
\<close>

lemma pound_sign_score_gap:
  assumes "\<not> isalnum db 0xA3" and "\<not> isspace db 0xA3"
  shows "spec_score db [0xA3] = score (check_strength db [0xA3]) + 1"
proof -
  have "(0xA3::nat) \<notin> set (code_points string_punctuation)"
    by (simp add: code_points_def string_punctuation_def)
  with assms show ?thesis
    by (simp add: spec_score_def spec_symbol_def check_strength_def length_check_def
        variety_check_def Let_def)
qed

lemma check_strength_score:
  "score (check_strength db password) =
     (if 12 \<le> length password then 2 else if 8 \<le> length password then 1 else 0) +
     (if list_ex (islower db) password then 1 else 0) +
     (if list_ex (isupper db) password then 1 else 0) +
     (if list_ex (isdigit db) password then 1 else 0) +
     (if list_ex (\<lambda>c. c \<in> set (code_points string_punctuation)) password then 1 else 0)"
  by (simp add: check_strength_def length_check_def variety_check_def Let_def)

lemma check_strength_feedback:
  "feedback (check_strength db password) =
     (if length password < 8 then [''Too short (minimum 8 characters)''] else []) @
     (if list_ex (islower db) password then [] else [''Add lowercase letters'']) @
     (if list_ex (isupper db) password then [] else [''Add uppercase letters'']) @
     (if list_ex (isdigit db) password then [] else [''Add numbers'']) @
     (if list_ex (\<lambda>c. c \<in> set (code_points string_punctuation)) password then []
      else [''Add special characters''])"
  by (simp add: check_strength_def length_check_def variety_check_def Let_def)

lemma check_strength_strength:
  "strength (check_strength db password) =
     (if 5 \<le> score (check_strength db password) then Strong
      else if 3 \<le> score (check_strength db password) then Medium else Weak)"
  by (simp add: check_strength_def Let_def split: prod.splits)

text \<open>
  C7, as amended. \<^verbatim>\<open>check_strength\<close> returns a report for every string, that is, for
  every sequence of Unicode code points, and under every Unicode database: the score is 2
  for a length of at least 12, else 1 for a length of at least 8, else 0, plus 1 for each
  of: a character that \<^verbatim>\<open>str.islower\<close> accepts, a character that \<^verbatim>\<open>str.isupper\<close>
  accepts, a character that \<^verbatim>\<open>str.isdigit\<close> accepts, a symbol, where a symbol is one of
  the 32 characters of \<^verbatim>\<open>string.punctuation\<close>; the rating is Strong from 5, Medium for
  3 and 4, Weak below; the feedback holds the message of each failed check in the order of
  the checks, and is empty when the score is 6.
\<close>

theorem check_strength_report:
  "score (check_strength db password) =
     (if 12 \<le> length password then 2 else if 8 \<le> length password then 1 else 0) +
     (if list_ex (islower db) password then 1 else 0) +
     (if list_ex (isupper db) password then 1 else 0) +
     (if list_ex (isdigit db) password then 1 else 0) +
     (if list_ex (\<lambda>c. c \<in> set (code_points string_punctuation)) password then 1 else 0) \<and>
   strength (check_strength db password) =
     (if 5 \<le> score (check_strength db password) then Strong
      else if 3 \<le> score (check_strength db password) then Medium else Weak) \<and>
   feedback (check_strength db password) =
     (if length password < 8 then [''Too short (minimum 8 characters)''] else []) @
     (if list_ex (islower db) password then [] else [''Add lowercase letters'']) @
     (if list_ex (isupper db) password then [] else [''Add uppercase letters'']) @
     (if list_ex (isdigit db) password then [] else [''Add numbers'']) @
     (if list_ex (\<lambda>c. c \<in> set (code_points string_punctuation)) password then []
      else [''Add special characters'']) \<and>
   0 \<le> score (check_strength db password) \<and> score (check_strength db password) \<le> 6 \<and>
   (score (check_strength db password) = 6 \<longrightarrow> feedback (check_strength db password) = [])"
proof (intro conjI)
  show "0 \<le> score (check_strength db password)"
    by (simp add: check_strength_score)
  show "score (check_strength db password) \<le> 6"
    by (simp add: check_strength_score)
  show "score (check_strength db password) = 6 \<longrightarrow> feedback (check_strength db password) = []"
    unfolding check_strength_score check_strength_feedback
    by (simp split: if_splits)
qed (rule check_strength_score check_strength_strength check_strength_feedback)+

theorem check_strength_report_witness:
  "score (check_strength unicode_0_255 (code_points ''Str0ngP@ssphrase!'')) = 6 \<and>
   strength (check_strength unicode_0_255 (code_points ''Str0ngP@ssphrase!'')) = Strong \<and>
   feedback (check_strength unicode_0_255 (code_points ''Str0ngP@ssphrase!'')) = []"
proof -
  let ?r = "check_strength unicode_0_255 (code_points ''Str0ngP@ssphrase!'')"
  have six: "score ?r = 6"
    by code_simp
  from check_strength_report [of unicode_0_255 "code_points ''Str0ngP@ssphrase!''"]
  have "strength ?r = (if 5 \<le> score ?r then Strong else if 3 \<le> score ?r then Medium else Weak)"
    and "score ?r = 6 \<longrightarrow> feedback ?r = []"
    by blast+
  with six show ?thesis
    by simp
qed

lemma check_strength_examples:
  "check_strength unicode_0_255 (code_points ''Str0ngP@ssphrase!'') =
     \<lparr>strength = Strong, score = 6, feedback = []\<rparr>"
  "check_strength unicode_0_255 (code_points ''abc'') =
     \<lparr>strength = Weak, score = 1,
      feedback = [''Too short (minimum 8 characters)'', ''Add uppercase letters'',
                  ''Add numbers'', ''Add special characters'']\<rparr>"
  by code_simp+

text \<open>
  A text over the code points 0 to 255, such as a password of the generator, is scored
  under a database as under these entries, whenever the two agree on that range.
\<close>

lemma check_strength_ascii:
  assumes "\<forall>c < 256. islower db c = islower unicode_0_255 c \<and>
             isupper db c = isupper unicode_0_255 c \<and> isdigit db c = isdigit unicode_0_255 c"
  shows "check_strength db (code_points password) =
         check_strength unicode_0_255 (code_points password)"
proof (rule check_strength_cong)
  have "c < 256" if "c \<in> set (code_points password)" for c
    using that by (auto simp: code_points_def)
  with assms show "\<forall>c \<in> set (code_points password).
      islower db c = islower unicode_0_255 c \<and> isupper db c = isupper unicode_0_255 c \<and>
      isdigit db c = isdigit unicode_0_255 c"
    by blast
qed

subsection \<open>The source of the shuffle\<close>

text \<open>
  C3. The claim that every draw of \<^verbatim>\<open>generate_password\<close> comes from the secure source
  fails at the shuffle, which draws from the Mersenne Twister: two runs on the same secure
  sequence, from two states of the Mersenne Twister, return two different passwords.
\<close>

theorem generate_password_shuffle_follows_twister:
  "fst (generate_password 4 True True True True False (init (\<lambda>i. 0) (\<lambda>i. 0))) = Inr ''A0!a'' \<and>
   fst (generate_password 4 True True True True False (init (\<lambda>i. 0) (\<lambda>i. 1))) = Inr ''a0!A''"
  by code_simp

end
